theory Spec2Isabelle
  imports Main "HOL-Library.List_Lexorder" "HOL-Library.Multiset"
begin

section \<open>Python values used by the two modules\<close>

text \<open>
  A Python \<open>str\<close> is a sequence of Unicode code points, and it is modelled as the list of
  these code points. List equality, \<open>@\<close> and the lexicographic order of
  \<open>HOL-Library.List_Lexorder\<close> are then Python's \<open>==\<close>, \<open>+\<close> and \<open><\<close> on \<open>str\<close>.
  \<open>ustr\<close> turns an ASCII literal of the source into its code points.
\<close>

type_synonym py_str = "nat list"

definition ustr :: "string \<Rightarrow> py_str" where
  "ustr s = map of_char s"

definition nl :: py_str where
  "nl = [10]"

text \<open>\<open>sep.join(xs)\<close>.\<close>

fun join :: "py_str \<Rightarrow> py_str list \<Rightarrow> py_str" where
  "join sep [] = []"
| "join sep [x] = x"
| "join sep (x # y # ys) = x @ sep @ join sep (y # ys)"

text \<open>
  Truth value of an optional string: \<open>None\<close> and \<open>""\<close> are false, every other string is
  true. It is the test of \<open>if os.environ.get(var_name)\<close>, of \<open>found and value\<close> and of
  \<open>if spec.help_url\<close>.
\<close>

definition truthy :: "py_str option \<Rightarrow> bool" where
  "truthy v = (case v of None \<Rightarrow> False | Some s \<Rightarrow> s \<noteq> [])"

text \<open>
  A Python \<open>set\<close> of strings is a HOL set; the order in which a loop or a generator visits
  its elements is not fixed by the language, so it is a parameter of the model: a function
  giving, for a set, the list in which its elements are visited. \<open>iterates\<close> says that the
  function visits every element of a finite set once.
\<close>

type_synonym set_iter = "py_str set \<Rightarrow> py_str list"

definition iterates :: "set_iter \<Rightarrow> bool" where
  "iterates it \<longleftrightarrow> (\<forall>S. finite S \<longrightarrow> set (it S) = S \<and> distinct (it S))"


section \<open>\<open>framework/credentials/validation.py\<close>\<close>

subsection \<open>Data\<close>

text \<open>
  The attributes the module reads of a node of the agent graph. \<open>node.tools\<close> is tested
  for truth before use, so the empty list stands for both \<open>None\<close> and \<open>[]\<close>.
\<close>

record NodeSpec =
  tools :: "py_str list"
  node_type :: py_str

text \<open>
  The attributes the module reads of a credential spec of \<open>aden_tools\<close>. The attribute
  \<open>tools\<close> of a spec is the field \<open>spec_tools\<close>, the name \<open>tools\<close> being the field of a node.
\<close>

record CredentialSpec =
  env_var :: py_str
  spec_tools :: "py_str list"
  node_types :: "py_str list"
  help_url :: "py_str option"

text \<open>
  \<open>CredentialStoreAdapter\<close> lives in the package \<open>aden_tools\<close>, outside this module: its two
  queries are parameters. Each takes the sorted list of names and returns the pairs
  \<open>(credential name, spec)\<close> of the credentials that are missing.
\<close>

record CredentialStoreAdapter =
  get_missing_for_tools :: "py_str list \<Rightarrow> (py_str \<times> CredentialSpec) list"
  get_missing_for_node_types :: "py_str list \<Rightarrow> (py_str \<times> CredentialSpec) list"

text \<open>
  The state of the process that the module touches: \<open>os.environ\<close>, and the trace of the
  calls made to \<open>check_env_var_in_shell_config\<close> (the variable names, in call order).
  The \<open>logger.debug\<close> line is not modelled.
\<close>

record proc =
  environ :: "py_str \<rightharpoonup> py_str"
  shell_lookups :: "py_str list"

text \<open>
  \<open>check_env_var_in_shell_config\<close> of \<open>aden_tools\<close>, a parameter: it reads the shell's
  startup file, so its answer \<open>(found, value)\<close> may depend on the environment it runs in.
  An import that fails is the value \<open>None\<close> of the option.
\<close>

type_synonym shell_lookup = "(py_str \<rightharpoonup> py_str) \<Rightarrow> py_str \<Rightarrow> bool \<times> py_str option"

type_synonym adapter_module = "(py_str \<rightharpoonup> py_str) \<Rightarrow> CredentialStoreAdapter"

text \<open>
  The exceptions that leave the functions of the module: \<open>CredentialError\<close> with its
  message, and the two that the assignment \<open>os.environ[var_name] = value\<close> of line 34
  raises.
\<close>

datatype error = CredentialError py_str | ValueError | UnicodeEncodeError

text \<open>
  The exception that \<open>os.environ[name] = v\<close> raises for one of the two variable names of
  the module and a string \<open>v\<close>, on a POSIX system whose file system encoding is UTF-8.
  The value is first encoded with the error handler \<open>surrogateescape\<close>, which raises
  \<open>UnicodeEncodeError\<close> for a surrogate (U+D800 to U+DFFF) outside U+DC80 to U+DCFF; then
  \<open>putenv\<close> raises \<open>ValueError\<close> for a value that holds U+0000. The assignment stores
  nothing when it raises. Both names are accepted, having neither \<open>=\<close> nor U+0000.
\<close>

definition putenv_error :: "py_str \<Rightarrow> error option" where
  "putenv_error v =
     (if list_ex (\<lambda>c. 55296 \<le> c \<and> c \<le> 57343 \<and> \<not> (56448 \<le> c \<and> c \<le> 56575)) v
      then Some UnicodeEncodeError
      else if list_ex (\<lambda>c. c = 0) v then Some ValueError
      else None)"

subsection \<open>\<open>ensure_credential_key_env\<close>\<close>

definition HIVE_CREDENTIAL_KEY :: py_str where
  "HIVE_CREDENTIAL_KEY = ustr ''HIVE_CREDENTIAL_KEY''"

definition ADEN_API_KEY :: py_str where
  "ADEN_API_KEY = ustr ''ADEN_API_KEY''"

text \<open>
  The body of the loop over the two variable names (source lines 30 to 35). The first
  component of the result is the exception that the body lets through, \<open>None\<close> when it
  completes; the assignment of line 34 is the one statement of the body that can raise.
\<close>

definition ensure_var :: "shell_lookup \<Rightarrow> py_str \<Rightarrow> proc \<Rightarrow> error option \<times> proc" where
  "ensure_var check_env_var_in_shell_config var_name p =
     (if truthy (environ p var_name) then (None, p)
      else
        (case check_env_var_in_shell_config (environ p) var_name of
           (found, val) \<Rightarrow>
             let p' = p\<lparr>shell_lookups := shell_lookups p @ [var_name]\<rparr> in
             (case val of
                None \<Rightarrow> (None, p')
              | Some v \<Rightarrow>
                  if found \<and> v \<noteq> [] then
                    (case putenv_error v of
                       Some e \<Rightarrow> (Some e, p')
                     | None \<Rightarrow> (None, p'\<lparr>environ := (environ p')(var_name \<mapsto> v)\<rparr>))
                  else (None, p'))))"

text \<open>The loop of line 29: an exception of the body ends it.\<close>

fun ensure_loop :: "shell_lookup \<Rightarrow> py_str list \<Rightarrow> proc \<Rightarrow> error option \<times> proc" where
  "ensure_loop check_env_var_in_shell_config [] p = (None, p)"
| "ensure_loop check_env_var_in_shell_config (var_name # rest) p =
     (case ensure_var check_env_var_in_shell_config var_name p of
        (Some e, p') \<Rightarrow> (Some e, p')
      | (None, p') \<Rightarrow> ensure_loop check_env_var_in_shell_config rest p')"

text \<open>
  The function returns \<open>None\<close> or lets the exception of line 34 through; the first
  component of the result is that exception.
\<close>

definition ensure_credential_key_env ::
  "shell_lookup option \<Rightarrow> proc \<Rightarrow> error option \<times> proc"
where
  "ensure_credential_key_env shell_config p =
     (case shell_config of
        None \<Rightarrow> (None, p)
      | Some check_env_var_in_shell_config \<Rightarrow>
          ensure_loop check_env_var_in_shell_config [HIVE_CREDENTIAL_KEY, ADEN_API_KEY] p)"

subsection \<open>\<open>validate_agent_credentials\<close>\<close>

text \<open>Lines 49 to 52: the loop that fills \<open>required_tools\<close>.\<close>

fun required_tools_loop :: "NodeSpec list \<Rightarrow> py_str set \<Rightarrow> py_str set" where
  "required_tools_loop [] required_tools = required_tools"
| "required_tools_loop (node # nodes) required_tools =
     required_tools_loop nodes
       (if tools node \<noteq> [] then required_tools \<union> set (tools node) else required_tools)"

text \<open>
  \<open>sorted(t for t in names if t in of_spec)\<close>: the generator visits the set in its
  iteration order, and \<open>sorted\<close> sorts what it yields.
\<close>

definition affected_names :: "set_iter \<Rightarrow> py_str set \<Rightarrow> py_str list \<Rightarrow> py_str list" where
  "affected_names it names of_spec = sort (filter (\<lambda>t. t \<in> set of_spec) (it names))"

text \<open>Lines 69 to 70 and 77 to 78: the help line, added when \<open>spec.help_url\<close> is true.\<close>

definition add_help_url :: "CredentialSpec \<Rightarrow> py_str \<Rightarrow> py_str" where
  "add_help_url spec entry =
     (case help_url spec of
        None \<Rightarrow> entry
      | Some url \<Rightarrow> if url \<noteq> [] then entry @ nl @ ustr ''    Get it at: '' @ url else entry)"

text \<open>Lines 67 to 70: the entry of one spec in the pass over the tools.\<close>

definition tool_entry :: "set_iter \<Rightarrow> py_str set \<Rightarrow> CredentialSpec \<Rightarrow> py_str" where
  "tool_entry it required_tools spec =
     (let affected = affected_names it required_tools (spec_tools spec) in
      add_help_url spec (ustr ''  '' @ env_var spec @ ustr '' for '' @ join (ustr '', '') affected))"

text \<open>Lines 75 to 78: the entry of one spec in the pass over the node types.\<close>

definition node_type_entry :: "set_iter \<Rightarrow> py_str set \<Rightarrow> CredentialSpec \<Rightarrow> py_str" where
  "node_type_entry it node_types_of_nodes spec =
     (let affected_types = affected_names it node_types_of_nodes (node_types spec) in
      add_help_url spec
        (ustr ''  '' @ env_var spec @ ustr '' for '' @ join (ustr '', '') affected_types
           @ ustr '' nodes''))"

text \<open>The two loops that append to \<open>missing\<close> (lines 66 to 71 and 74 to 79).\<close>

fun tools_pass ::
  "set_iter \<Rightarrow> py_str set \<Rightarrow> (py_str \<times> CredentialSpec) list \<Rightarrow> py_str list \<Rightarrow> py_str list"
where
  "tools_pass it required_tools [] missing = missing"
| "tools_pass it required_tools ((cred_name, spec) # rest) missing =
     tools_pass it required_tools rest (missing @ [tool_entry it required_tools spec])"

fun node_types_pass ::
  "set_iter \<Rightarrow> py_str set \<Rightarrow> (py_str \<times> CredentialSpec) list \<Rightarrow> py_str list \<Rightarrow> py_str list"
where
  "node_types_pass it node_types_of_nodes [] missing = missing"
| "node_types_pass it node_types_of_nodes ((cred_name, spec) # rest) missing =
     node_types_pass it node_types_of_nodes rest
       (missing @ [node_type_entry it node_types_of_nodes spec])"

text \<open>The value of the local variable \<open>missing\<close> when line 81 is reached.\<close>

definition missing_entries ::
  "set_iter \<Rightarrow> CredentialStoreAdapter \<Rightarrow> NodeSpec list \<Rightarrow> py_str list"
where
  "missing_entries it adapter nodes =
     (let required_tools = required_tools_loop nodes {};
          node_types_of_nodes = node_type ` set nodes;
          missing = tools_pass it required_tools
                      (get_missing_for_tools adapter (sort (it required_tools))) []
      in node_types_pass it node_types_of_nodes
           (get_missing_for_node_types adapter (sort (it node_types_of_nodes))) missing)"

definition header :: py_str where
  "header = ustr ''Missing required credentials:'' @ nl"

definition remediation :: py_str where
  "remediation =
     nl @ ustr ''To fix: run /hive-credentials in Claude Code.''
        @ nl @ ustr ''If you've already set up credentials, restart your terminal to load them.''"

text \<open>Lines 84 to 90: the message of the error.\<close>

definition error_message :: "py_str list \<Rightarrow> py_str" where
  "error_message missing = join nl ([header] @ missing @ [remediation])"

text \<open>
  The function returns \<open>None\<close> (\<open>Inr ()\<close>) or raises (\<open>Inl\<close>): \<open>CredentialError\<close> of line
  90, or the exception that the call of \<open>ensure_credential_key_env\<close> of line 60, which is
  not guarded, lets through. The second component is the state of the process afterwards.
  The import of the store adapter that fails (lines 55 to 58) is the value \<open>None\<close> of
  \<open>store_adapter\<close>; when it succeeds and line 60 returns,
  \<open>CredentialStoreAdapter.default()\<close> is built in the environment that
  \<open>ensure_credential_key_env\<close> leaves.
\<close>

definition validate_agent_credentials ::
  "set_iter \<Rightarrow> shell_lookup option \<Rightarrow> adapter_module option \<Rightarrow> NodeSpec list \<Rightarrow> proc
     \<Rightarrow> (error + unit) \<times> proc"
where
  "validate_agent_credentials it shell_config store_adapter nodes p =
     (case store_adapter of
        None \<Rightarrow> (Inr (), p)
      | Some default_adapter \<Rightarrow>
          (case ensure_credential_key_env shell_config p of
             (Some e, p') \<Rightarrow> (Inl e, p')
           | (None, p') \<Rightarrow>
               let adapter = default_adapter (environ p');
                   missing = missing_entries it adapter nodes
               in if missing \<noteq> [] then (Inl (CredentialError (error_message missing)), p')
                  else (Inr (), p')))"


section \<open>\<open>framework/tui/screens/credential_setup.py\<close>\<close>

subsection \<open>\<open>str.strip\<close>\<close>

text \<open>
  The code points that \<open>str.strip()\<close> removes, those for which \<open>str.isspace\<close> holds:
  U+0009 to U+000D, U+001C to U+0020, U+0085, U+00A0, U+1680, U+2000 to U+200A, U+2028,
  U+2029, U+202F, U+205F and U+3000.
\<close>

definition py_isspace :: "nat \<Rightarrow> bool" where
  "py_isspace c \<longleftrightarrow>
     (9 \<le> c \<and> c \<le> 13) \<or> (28 \<le> c \<and> c \<le> 32) \<or> c = 133 \<or> c = 160 \<or> c = 5760 \<or>
     (8192 \<le> c \<and> c \<le> 8202) \<or> c = 8232 \<or> c = 8233 \<or> c = 8239 \<or> c = 8287 \<or> c = 12288"

definition strip :: "py_str \<Rightarrow> py_str" where
  "strip s = rev (dropWhile py_isspace (rev (dropWhile py_isspace s)))"

subsection \<open>Data\<close>

text \<open>
  \<open>MissingCredential\<close> and \<open>CredentialSetupSession\<close> are declared in
  \<open>framework.credentials.setup\<close>, outside this module. Of a missing credential,
  \<open>_save_credentials\<close> reads \<open>env_var\<close> only. The two methods of the session that the screen
  calls are parameters: each runs on the state of the session and returns the state it
  leaves, with the text \<open>str(e)\<close> of the exception it raised, if it raised one.
  The attribute \<open>env_var\<close> of a missing credential is the field \<open>cred_env_var\<close>, and the
  methods \<open>_ensure_credential_key\<close>, \<open>_store_credential\<close> and \<open>_save_credentials\<close> lose
  their leading underscore.
\<close>

record MissingCredential =
  cred_env_var :: py_str

record 's session_ops =
  ensure_credential_key :: "'s \<Rightarrow> py_str option \<times> 's"
  store_credential :: "MissingCredential \<Rightarrow> py_str \<Rightarrow> 's \<Rightarrow> py_str option \<times> 's"

datatype severity = Severity_error | Severity_warning

text \<open>
  What the screen does to the world outside it, in the order it does it: the call of
  \<open>_ensure_credential_key\<close>, the query \<open>query_one(f"#key-{i}", Input)\<close>, the call of
  \<open>_store_credential\<close> with its arguments and the exception it raised, \<open>notify\<close> with its
  message, severity and timeout, and \<open>dismiss\<close> with its result.
\<close>

datatype event =
    EnsureCredentialKey
  | QueryOne nat
  | StoreCredential MissingCredential py_str "py_str option"
  | Notify py_str severity "nat option"
  | Dismiss "bool option"

text \<open>
  The screen: \<open>self._session\<close> (the state of the session), \<open>self._missing\<close>, the values of
  the widgets \<open>#key-0\<close>, \<open>#key-1\<close>, ... that \<open>compose\<close> creates, one for each entry of
  \<open>self._missing\<close>, and the trace of events so far.
\<close>

record 's screen =
  self_session :: 's
  self_missing :: "MissingCredential list"
  self_inputs :: "py_str list"
  self_events :: "event list"

text \<open>
  An exception that leaves \<open>_save_credentials\<close>: \<open>NoMatches\<close> of \<open>query_one\<close> when there is
  no widget of that id, or the exception of \<open>_ensure_credential_key\<close>.
\<close>

datatype exn = NoMatches nat | Raised py_str

definition log_event :: "event \<Rightarrow> 's screen \<Rightarrow> 's screen" where
  "log_event e scr = scr\<lparr>self_events := self_events scr @ [e]\<rparr>"

subsection \<open>\<open>_save_credentials\<close>\<close>

text \<open>
  The loop of lines 124 to 133 from index \<open>i\<close> on, with the counter \<open>configured\<close>. The
  handler of line 132 catches the exception of \<open>_store_credential\<close> only; the query of
  line 125 is outside the \<open>try\<close>.
\<close>

fun save_loop ::
  "'s session_ops \<Rightarrow> nat \<Rightarrow> MissingCredential list \<Rightarrow> nat \<Rightarrow> 's screen
     \<Rightarrow> exn option \<times> nat \<times> 's screen"
where
  "save_loop ops i [] configured scr = (None, configured, scr)"
| "save_loop ops i (cred # rest) configured scr =
     (let scr1 = log_event (QueryOne i) scr in
      if i < length (self_inputs scr) then
        (let val = strip (self_inputs scr ! i) in
         if val = [] then save_loop ops (Suc i) rest configured scr1
         else
           (case store_credential ops cred val (self_session scr1) of
              (None, s') \<Rightarrow>
                save_loop ops (Suc i) rest (Suc configured)
                  (log_event (StoreCredential cred val None) (scr1\<lparr>self_session := s'\<rparr>))
            | (Some e, s') \<Rightarrow>
                save_loop ops (Suc i) rest configured
                  (log_event
                     (Notify (ustr ''Error storing '' @ cred_env_var cred @ ustr '': '' @ e)
                        Severity_error None)
                     (log_event (StoreCredential cred val (Some e))
                        (scr1\<lparr>self_session := s'\<rparr>)))))
      else (Some (NoMatches i), configured, scr1))"

definition save_credentials :: "'s session_ops \<Rightarrow> 's screen \<Rightarrow> exn option \<times> 's screen" where
  "save_credentials ops scr =
     (let scr0 = log_event EnsureCredentialKey scr in
      case ensure_credential_key ops (self_session scr0) of
        (Some e, s') \<Rightarrow> (Some (Raised e), scr0\<lparr>self_session := s'\<rparr>)
      | (None, s') \<Rightarrow>
          (case save_loop ops 0 (self_missing scr0) 0 (scr0\<lparr>self_session := s'\<rparr>) of
             (Some x, configured, scr') \<Rightarrow> (Some x, scr')
           | (None, configured, scr') \<Rightarrow>
               if configured > 0 then (None, log_event (Dismiss (Some True)) scr')
               else
                 (None,
                  log_event
                    (Notify (ustr ''No credentials entered'') Severity_warning (Some 3))
                    scr')))"

subsection \<open>The button handler and the Escape binding\<close>


definition action_dismiss_setup :: "'s screen \<Rightarrow> 's screen" where
  "action_dismiss_setup scr = log_event (Dismiss None) scr"

subsection \<open>Reading the trace\<close>

text \<open>The calls of \<open>_store_credential\<close> in a trace, the notifications, and the dismissals.\<close>

definition store_calls :: "event list \<Rightarrow> (MissingCredential \<times> py_str \<times> py_str option) list" where
  "store_calls evs = [(c, v, r). StoreCredential c v r \<leftarrow> evs]"

definition notifications :: "event list \<Rightarrow> (py_str \<times> severity \<times> nat option) list" where
  "notifications evs = [(m, sev, t). Notify m sev t \<leftarrow> evs]"

definition dismissals :: "event list \<Rightarrow> bool option list" where
  "dismissals evs = [r. Dismiss r \<leftarrow> evs]"

text \<open>The events that a run from the screen \<open>scr\<close> to the screen \<open>scr'\<close> has added.\<close>

definition events_since :: "'s screen \<Rightarrow> 's screen \<Rightarrow> event list" where
  "events_since scr scr' = drop (length (self_events scr)) (self_events scr')"

text \<open>The notification of line 133 for a credential and the text of the exception.\<close>

definition error_notice :: "MissingCredential \<Rightarrow> py_str \<Rightarrow> py_str \<times> severity \<times> nat option" where
  "error_notice cred e =
     (ustr ''Error storing '' @ cred_env_var cred @ ustr '': '' @ e, Severity_error, None)"


section \<open>Forms taken from the specification, and example data\<close>

subsection \<open>Forms that the specification gives\<close>

text \<open>
  The entries of a list \<open>missing\<close> that name the variable of a spec: those that begin with
  \<open>"  <env_var> for "\<close>.
\<close>

definition entries_for :: "CredentialSpec \<Rightarrow> py_str list \<Rightarrow> py_str list" where
  "entries_for spec missing =
     filter (\<lambda>e. take (length (ustr ''  '' @ env_var spec @ ustr '' for '')) e
                   = ustr ''  '' @ env_var spec @ ustr '' for '') missing"

text \<open>
  The line of a missing credential in the form that the specification gives for every
  entry: \<open>"  <env_var> for <comma-joined affected names>"\<close>, followed by the help line when
  the spec has a help URL.
\<close>

definition claimed_entry :: "CredentialSpec \<Rightarrow> py_str list \<Rightarrow> py_str" where
  "claimed_entry spec names =
     add_help_url spec (ustr ''  '' @ env_var spec @ ustr '' for '' @ join (ustr '', '') names)"




text \<open>
  The states of the setup session that the specification names, read from a trace. The
  docstring of the screen says that it returns \<open>True\<close> on a successful save and \<open>None\<close> on
  cancel or skip: the session is \<open>Saved\<close> when it was dismissed with \<open>True\<close>, \<open>Cancelled\<close> when
  it was dismissed with another result, and still \<open>Collecting\<close> while it was not dismissed.
\<close>

datatype session_state = Collecting | Saved | Cancelled

definition state_of :: "event list \<Rightarrow> session_state" where
  "state_of evs =
     (case dismissals evs of
        [] \<Rightarrow> Collecting
      | r # rs \<Rightarrow> (case r of Some True \<Rightarrow> Saved | _ \<Rightarrow> Cancelled))"

subsection \<open>Example data for \<open>validation.py\<close>\<close>

text \<open>
  An adapter over a registry of specs and the list of the variables that the store holds.
  It answers the two queries as the specification describes the resolver: a spec is
  reported when one of the given names is among the spec's and its variable is not stored.
\<close>

definition registry_adapter ::
  "(py_str \<times> CredentialSpec) list \<Rightarrow> py_str list \<Rightarrow> CredentialStoreAdapter"
where
  "registry_adapter registry stored =
     \<lparr>get_missing_for_tools = (\<lambda>names.
        filter (\<lambda>(n, spec). (\<exists>t\<in>set names. t \<in> set (spec_tools spec)) \<and> env_var spec \<notin> set stored)
          registry),
      get_missing_for_node_types = (\<lambda>names.
        filter (\<lambda>(n, spec). (\<exists>t\<in>set names. t \<in> set (node_types spec)) \<and> env_var spec \<notin> set stored)
          registry)\<rparr>"

definition foo_spec :: CredentialSpec where
  "foo_spec = \<lparr>env_var = ustr ''FOO_KEY'', spec_tools = [ustr ''search'', ustr ''fetch''],
               node_types = [ustr ''llm''], help_url = Some (ustr ''https://foo.example/keys'')\<rparr>"

definition foo_adapter :: CredentialStoreAdapter where
  "foo_adapter = registry_adapter [(ustr ''foo'', foo_spec)] []"

definition search_node :: NodeSpec where
  "search_node = \<lparr>tools = [ustr ''search''], node_type = ustr ''llm''\<rparr>"

definition fetch_node :: NodeSpec where
  "fetch_node = \<lparr>tools = [ustr ''fetch'', ustr ''search''], node_type = ustr ''router''\<rparr>"

definition plain_node :: NodeSpec where
  "plain_node = \<lparr>tools = [], node_type = ustr ''llm''\<rparr>"

definition empty_proc :: proc where
  "empty_proc = \<lparr>environ = Map.empty, shell_lookups = []\<rparr>"







subsection \<open>Example data for \<open>credential_setup.py\<close>\<close>

text \<open>
  A session that keeps the master key and the stored pairs. Ensuring the key generates one
  when there is none; storing fails for the variable \<open>BAD_KEY\<close> and appends the pair for
  every other variable.
\<close>

record demo_session =
  master_key :: "py_str option"
  stored :: "(py_str \<times> py_str) list"

definition demo_ops :: "demo_session session_ops" where
  "demo_ops =
     \<lparr>ensure_credential_key = (\<lambda>s.
        (None, case master_key s of
                 None \<Rightarrow> s\<lparr>master_key := Some (ustr ''generated-key'')\<rparr>
               | Some k \<Rightarrow> s)),
      store_credential = (\<lambda>cred v s.
        if cred_env_var cred = ustr ''BAD_KEY'' then (Some (ustr ''disk full''), s)
        else (None, s\<lparr>stored := stored s @ [(cred_env_var cred, v)]\<rparr>))\<rparr>"

text \<open>A screen for three missing credentials with the given values of the three inputs.\<close>

definition demo_screen :: "py_str list \<Rightarrow> demo_session screen" where
  "demo_screen inputs =
     \<lparr>self_session = \<lparr>master_key = None, stored = []\<rparr>,
      self_missing = [\<lparr>cred_env_var = ustr ''A_KEY''\<rparr>, \<lparr>cred_env_var = ustr ''BAD_KEY''\<rparr>,
                      \<lparr>cred_env_var = ustr ''B_KEY''\<rparr>],
      self_inputs = inputs,
      self_events = []\<rparr>"


section \<open>Lemmas on \<open>validation.py\<close>\<close>

lemma tools_pass_eq:
  "tools_pass it rt xs acc = acc @ map (\<lambda>(n, spec). tool_entry it rt spec) xs"
  by (induction xs arbitrary: acc) auto

lemma node_types_pass_eq:
  "node_types_pass it nt xs acc = acc @ map (\<lambda>(n, spec). node_type_entry it nt spec) xs"
  by (induction xs arbitrary: acc) auto

lemma required_tools_loop_eq:
  "required_tools_loop nodes acc = acc \<union> (\<Union>n\<in>set nodes. set (tools n))"
  by (induction nodes arbitrary: acc) auto

lemma finite_required_tools: "finite (required_tools_loop nodes {})"
  by (simp add: required_tools_loop_eq)

lemma missing_entries_eq:
  "missing_entries it adapter nodes =
     map (\<lambda>(n, spec). tool_entry it (required_tools_loop nodes {}) spec)
       (get_missing_for_tools adapter (sort (it (required_tools_loop nodes {}))))
     @ map (\<lambda>(n, spec). node_type_entry it (node_type ` set nodes) spec)
       (get_missing_for_node_types adapter (sort (it (node_type ` set nodes))))"
  by (simp add: missing_entries_def tools_pass_eq node_types_pass_eq Let_def)

text \<open>Sorting what an iteration yields gives the same list for every iteration order.\<close>

lemma sort_iterates:
  assumes "iterates it" "finite S"
  shows "sort (it S) = sorted_list_of_set S"
proof -
  have "sorted_list_of_set (set (it S)) = sort (remdups (it S))"
    by (rule sorted_list_of_set_sort_remdups)
  with assms show ?thesis by (simp add: iterates_def distinct_remdups_id)
qed

lemma affected_names_eq:
  assumes "iterates it" "finite S"
  shows "affected_names it S xs = sorted_list_of_set (S \<inter> set xs)"
proof -
  have d: "distinct (filter (\<lambda>t. t \<in> set xs) (it S))"
    using assms by (simp add: iterates_def)
  have s: "set (filter (\<lambda>t. t \<in> set xs) (it S)) = S \<inter> set xs"
    using assms by (auto simp: iterates_def)
  have "sorted_list_of_set (set (filter (\<lambda>t. t \<in> set xs) (it S)))
          = sort (remdups (filter (\<lambda>t. t \<in> set xs) (it S)))"
    by (rule sorted_list_of_set_sort_remdups)
  with d s show ?thesis by (simp add: affected_names_def distinct_remdups_id)
qed

lemma iterates_sorted_list_of_set: "iterates sorted_list_of_set"
  by (simp add: iterates_def)

lemma iterates_rev: "iterates it \<Longrightarrow> iterates (\<lambda>S. rev (it S))"
  by (simp add: iterates_def)

lemma join_header_trailer:
  "xs \<noteq> [] \<Longrightarrow> join sep (h # xs @ [t]) = h @ sep @ join sep xs @ sep @ t"
proof (induction xs arbitrary: h)
  case Nil
  then show ?case by simp
next
  case (Cons x xs)
  show ?case
  proof (cases xs)
    case Nil
    then show ?thesis by simp
  next
    case (Cons y ys)
    with Cons.IH[of x] show ?thesis by simp
  qed
qed

lemma error_message_eq:
  assumes "missing \<noteq> []"
  shows "error_message missing = header @ nl @ join nl missing @ nl @ remediation"
  unfolding error_message_def
  using join_header_trailer[OF assms, of nl header remediation] by simp








section \<open>Claims on \<open>validation.py\<close>\<close>



text \<open>
  C2, as the specification states it, fails. The spec \<open>FOO_KEY\<close> is required by the tool
  \<open>search\<close> and by the node type \<open>llm\<close> of the one node and is not stored: the list
  \<open>missing\<close> has two entries for it, one of each pass.
\<close>

theorem both_passes_two_entries_counterexample:
  "missing_entries sorted_list_of_set foo_adapter [search_node]
     = [ustr ''  FOO_KEY for search'' @ nl @ ustr ''    Get it at: https://foo.example/keys'',
        ustr ''  FOO_KEY for llm nodes'' @ nl @ ustr ''    Get it at: https://foo.example/keys'']
   \<and> length (entries_for foo_spec (missing_entries sorted_list_of_set foo_adapter [search_node])) = 2"
  by code_simp

text \<open>
  C2, amended. The list \<open>missing\<close> has one entry for every report of the pass over the tools
  and one for every report of the pass over the node types. A spec that both passes report
  has an entry of the first pass, with the affected tools, and further on an entry of the
  second pass, with the affected node types.
\<close>

theorem missing_entries_one_entry_per_pass:
  assumes "(n1, spec) \<in> set (get_missing_for_tools adapter (sort (it (required_tools_loop nodes {}))))"
      and "(n2, spec) \<in> set (get_missing_for_node_types adapter (sort (it (node_type ` set nodes))))"
  shows "length (missing_entries it adapter nodes)
           = length (get_missing_for_tools adapter (sort (it (required_tools_loop nodes {}))))
             + length (get_missing_for_node_types adapter (sort (it (node_type ` set nodes))))
         \<and> (\<exists>i j. i < j \<and> j < length (missing_entries it adapter nodes)
               \<and> missing_entries it adapter nodes ! i = tool_entry it (required_tools_loop nodes {}) spec
               \<and> missing_entries it adapter nodes ! j = node_type_entry it (node_type ` set nodes) spec)"
proof -
  let ?mt = "get_missing_for_tools adapter (sort (it (required_tools_loop nodes {})))"
  let ?mn = "get_missing_for_node_types adapter (sort (it (node_type ` set nodes)))"
  let ?te = "map (\<lambda>(n, spec). tool_entry it (required_tools_loop nodes {}) spec) ?mt"
  let ?ne = "map (\<lambda>(n, spec). node_type_entry it (node_type ` set nodes) spec) ?mn"
  have eq: "missing_entries it adapter nodes = ?te @ ?ne"
    by (rule missing_entries_eq)
  from assms(1) obtain a where a: "a < length ?mt" "?mt ! a = (n1, spec)"
    by (auto simp: in_set_conv_nth)
  from assms(2) obtain b where b: "b < length ?mn" "?mn ! b = (n2, spec)"
    by (auto simp: in_set_conv_nth)
  have ia: "(?te @ ?ne) ! a = tool_entry it (required_tools_loop nodes {}) spec"
    using a by (simp add: nth_append)
  have ib: "(?te @ ?ne) ! (length ?mt + b) = node_type_entry it (node_type ` set nodes) spec"
    using b by (simp add: nth_append)
  have "a < length ?mt + b" "length ?mt + b < length (?te @ ?ne)"
    using a b by simp_all
  with ia ib have "\<exists>i j. i < j \<and> j < length (?te @ ?ne)
               \<and> (?te @ ?ne) ! i = tool_entry it (required_tools_loop nodes {}) spec
               \<and> (?te @ ?ne) ! j = node_type_entry it (node_type ` set nodes) spec"
    by blast
  then show ?thesis unfolding eq by simp
qed

text \<open>The amended C2 at the node that needs \<open>FOO_KEY\<close> for a tool and for its type.\<close>

theorem missing_entries_one_entry_per_pass_witness:
  "(ustr ''foo'', foo_spec)
     \<in> set (get_missing_for_tools foo_adapter
              (sort (sorted_list_of_set (required_tools_loop [search_node] {}))))
   \<and> (ustr ''foo'', foo_spec)
     \<in> set (get_missing_for_node_types foo_adapter
              (sort (sorted_list_of_set (node_type ` set [search_node]))))
   \<and> length (missing_entries sorted_list_of_set foo_adapter [search_node]) = 2
   \<and> (\<exists>i j. i < j \<and> j < length (missing_entries sorted_list_of_set foo_adapter [search_node])
         \<and> missing_entries sorted_list_of_set foo_adapter [search_node] ! i
             = tool_entry sorted_list_of_set (required_tools_loop [search_node] {}) foo_spec
         \<and> missing_entries sorted_list_of_set foo_adapter [search_node] ! j
             = node_type_entry sorted_list_of_set (node_type ` set [search_node]) foo_spec)"
proof -
  have h1: "(ustr ''foo'', foo_spec)
     \<in> set (get_missing_for_tools foo_adapter
              (sort (sorted_list_of_set (required_tools_loop [search_node] {}))))"
    by code_simp
  have h2: "(ustr ''foo'', foo_spec)
     \<in> set (get_missing_for_node_types foo_adapter
              (sort (sorted_list_of_set (node_type ` set [search_node]))))"
    by code_simp
  have l: "length (missing_entries sorted_list_of_set foo_adapter [search_node]) = 2"
    by code_simp
  from missing_entries_one_entry_per_pass[OF h1 h2] h1 h2 l show ?thesis by blast
qed


text \<open>
  C3, as the specification states it, fails on the entries of the pass over the node types.
  For the node of type \<open>llm\<close> that needs \<open>FOO_KEY\<close> the line of the message is
  \<open>"  FOO_KEY for llm nodes"\<close>; the form that the specification gives is
  \<open>"  FOO_KEY for llm"\<close>.
\<close>

theorem node_type_line_counterexample:
  "fst (validate_agent_credentials sorted_list_of_set None (Some (\<lambda>env. foo_adapter))
          [plain_node] empty_proc)
     = Inl (CredentialError
         (join nl [header,
                   ustr ''  FOO_KEY for llm nodes'' @ nl
                     @ ustr ''    Get it at: https://foo.example/keys'',
                   remediation]))
   \<and> claimed_entry foo_spec [ustr ''llm'']
       = ustr ''  FOO_KEY for llm'' @ nl @ ustr ''    Get it at: https://foo.example/keys''
   \<and> fst (validate_agent_credentials sorted_list_of_set None (Some (\<lambda>env. foo_adapter))
          [plain_node] empty_proc)
     \<noteq> Inl (CredentialError (join nl [header, claimed_entry foo_spec [ustr ''llm''], remediation]))"
  by code_simp

text \<open>
  C3, amended. For every iteration order of the two sets, the list \<open>missing\<close> holds, for
  every credential that the pass over the tools reports, the line
  \<open>"  <env_var> for <names>"\<close> and, for every credential that the pass over the node types
  reports, the line \<open>"  <env_var> for <names> nodes"\<close>; each is followed, when the spec has
  a help URL that is not empty, by a line break and \<open>"    Get it at: <url>"\<close>. The names
  are the tools (the node types) of the nodes that are also the spec's, sorted and joined
  by \<open>", "\<close>. When the list is not empty, which supposes that line 60 has returned, the
  message of the error is the header line, an empty line, the entries one per line, an
  empty line, and the two lines of the remediation hint.
\<close>

theorem error_message_format:
  assumes "iterates it"
  shows
    "let workload_tools = (\<Union>n\<in>set nodes. set (tools n));
         workload_types = node_type ` set nodes;
         adapter = default_adapter (environ (snd (ensure_credential_key_env shell_config p)));
         help = (\<lambda>spec. case help_url spec of
                    None \<Rightarrow> []
                  | Some url \<Rightarrow> if url = [] then [] else nl @ ustr ''    Get it at: '' @ url);
         tool_lines =
           map (\<lambda>(n, spec).
                  ustr ''  '' @ env_var spec @ ustr '' for ''
                    @ join (ustr '', '')
                        (sorted_list_of_set (workload_tools \<inter> set (spec_tools spec)))
                    @ help spec)
             (get_missing_for_tools adapter (sorted_list_of_set workload_tools));
         type_lines =
           map (\<lambda>(n, spec).
                  ustr ''  '' @ env_var spec @ ustr '' for ''
                    @ join (ustr '', '')
                        (sorted_list_of_set (workload_types \<inter> set (node_types spec)))
                    @ ustr '' nodes'' @ help spec)
             (get_missing_for_node_types adapter (sorted_list_of_set workload_types))
     in missing_entries it adapter nodes = tool_lines @ type_lines
        \<and> (tool_lines @ type_lines \<noteq> []
             \<and> fst (ensure_credential_key_env shell_config p) = None \<longrightarrow>
             fst (validate_agent_credentials it shell_config (Some default_adapter) nodes p)
               = Inl (CredentialError
                   (ustr ''Missing required credentials:'' @ nl @ nl
                      @ join nl (tool_lines @ type_lines) @ nl @ nl
                      @ ustr ''To fix: run /hive-credentials in Claude Code.'' @ nl
                      @ ustr ''If you've already set up credentials, restart your terminal to load them.'')))"
proof -
  have rt: "required_tools_loop nodes {} = (\<Union>n\<in>set nodes. set (tools n))"
    by (simp add: required_tools_loop_eq)
  have f1: "finite (\<Union>n\<in>set nodes. set (tools n))" by simp
  have f2: "finite (node_type ` set nodes)" by simp
  have h: "add_help_url spec e
             = e @ (case help_url spec of None \<Rightarrow> []
                    | Some url \<Rightarrow> if url = [] then [] else nl @ ustr ''    Get it at: '' @ url)"
    for spec e
    by (simp add: add_help_url_def split: option.split)
  have te: "tool_entry it (\<Union>n\<in>set nodes. set (tools n)) spec
      = ustr ''  '' @ env_var spec @ ustr '' for ''
          @ join (ustr '', '')
              (sorted_list_of_set ((\<Union>n\<in>set nodes. set (tools n)) \<inter> set (spec_tools spec)))
          @ (case help_url spec of None \<Rightarrow> []
             | Some url \<Rightarrow> if url = [] then [] else nl @ ustr ''    Get it at: '' @ url)" for spec
    unfolding tool_entry_def Let_def affected_names_eq[OF assms f1] h by simp
  have ne: "node_type_entry it (node_type ` set nodes) spec
      = ustr ''  '' @ env_var spec @ ustr '' for ''
          @ join (ustr '', '')
              (sorted_list_of_set ((node_type ` set nodes) \<inter> set (node_types spec)))
          @ ustr '' nodes''
          @ (case help_url spec of None \<Rightarrow> []
             | Some url \<Rightarrow> if url = [] then [] else nl @ ustr ''    Get it at: '' @ url)" for spec
    unfolding node_type_entry_def Let_def affected_names_eq[OF assms f2] h by simp
  have m: "missing_entries it a nodes
      = map (\<lambda>(n, spec). tool_entry it (\<Union>n\<in>set nodes. set (tools n)) spec)
          (get_missing_for_tools a (sorted_list_of_set (\<Union>n\<in>set nodes. set (tools n))))
        @ map (\<lambda>(n, spec). node_type_entry it (node_type ` set nodes) spec)
          (get_missing_for_node_types a (sorted_list_of_set (node_type ` set nodes)))" for a
    unfolding missing_entries_eq rt sort_iterates[OF assms f1] sort_iterates[OF assms f2] ..
  have v: "fst (validate_agent_credentials it shell_config (Some default_adapter) nodes p)
      = Inl (CredentialError (header @ nl @ join nl
            (missing_entries it
               (default_adapter (environ (snd (ensure_credential_key_env shell_config p)))) nodes)
           @ nl @ remediation))"
    if "missing_entries it
          (default_adapter (environ (snd (ensure_credential_key_env shell_config p)))) nodes \<noteq> []"
       "fst (ensure_credential_key_env shell_config p) = None"
    using that
    by (cases "ensure_credential_key_env shell_config p")
       (simp add: validate_agent_credentials_def Let_def error_message_eq)
  show ?thesis
    unfolding Let_def using v
    by (simp add: m te ne header_def remediation_def)
qed

text \<open>
  The amended C3 at two nodes that use the tools \<open>search\<close> and \<open>fetch\<close> and have the types
  \<open>llm\<close> and \<open>router\<close>: the whole message.
\<close>

theorem error_message_format_witness:
  "iterates sorted_list_of_set
   \<and> missing_entries sorted_list_of_set foo_adapter [search_node, fetch_node]
       = [ustr ''  FOO_KEY for fetch, search'' @ nl
            @ ustr ''    Get it at: https://foo.example/keys'',
          ustr ''  FOO_KEY for llm nodes'' @ nl
            @ ustr ''    Get it at: https://foo.example/keys'']
   \<and> fst (validate_agent_credentials sorted_list_of_set None (Some (\<lambda>env. foo_adapter))
            [search_node, fetch_node] empty_proc)
       = Inl (CredentialError
           (ustr ''Missing required credentials:'' @ nl @ nl
              @ ustr ''  FOO_KEY for fetch, search'' @ nl
              @ ustr ''    Get it at: https://foo.example/keys'' @ nl
              @ ustr ''  FOO_KEY for llm nodes'' @ nl
              @ ustr ''    Get it at: https://foo.example/keys'' @ nl @ nl
              @ ustr ''To fix: run /hive-credentials in Claude Code.'' @ nl
              @ ustr ''If you've already set up credentials, restart your terminal to load them.''))"
proof -
  have h: "iterates sorted_list_of_set" by (rule iterates_sorted_list_of_set)
  have t: "(\<Union>n\<in>set [search_node, fetch_node]. set (tools n)) = {ustr ''search'', ustr ''fetch''}"
    by (auto simp: search_node_def fetch_node_def)
  have n: "node_type ` set [search_node, fetch_node] = {ustr ''llm'', ustr ''router''}"
    by (auto simp: search_node_def fetch_node_def)
  show ?thesis
    using h error_message_format[OF h, of "[search_node, fetch_node]" "\<lambda>env. foo_adapter"
                 None empty_proc]
    unfolding Let_def t n
    by (simp add: foo_adapter_def registry_adapter_def foo_spec_def ustr_def nl_def
          ensure_credential_key_env_def)
qed

text \<open>
  C4. When the store adapter cannot be imported, \<open>validate_agent_credentials\<close> returns
  normally for every list of nodes and leaves the process as it was; when the shell
  configuration lookup cannot be imported, \<open>ensure_credential_key_env\<close> returns without
  an exception and leaves the process, and so the environment, as it was, also when it is
  called from
  \<open>validate_agent_credentials\<close>.
\<close>

theorem collaborator_absence_is_not_an_error:
  "validate_agent_credentials it shell_config None nodes p = (Inr (), p)
   \<and> ensure_credential_key_env None p = (None, p)
   \<and> snd (validate_agent_credentials it None store_adapter nodes p) = p"
  by (simp add: validate_agent_credentials_def ensure_credential_key_env_def Let_def
        split: option.split)

text \<open>
  C5. For two lists of nodes that are permutations of each other and for any two iteration
  orders of the sets, the list \<open>missing\<close> is the same, entry by entry, and
  \<open>validate_agent_credentials\<close> has the same outcome: the same error with the same message,
  or the same normal return, and the same state of the process.
\<close>

theorem validate_order_independent:
  assumes "mset nodes1 = mset nodes2" and "iterates it1" and "iterates it2"
  shows "missing_entries it1 adapter nodes1 = missing_entries it2 adapter nodes2
       \<and> validate_agent_credentials it1 shell_config store_adapter nodes1 p
           = validate_agent_credentials it2 shell_config store_adapter nodes2 p"
proof -
  have s: "set nodes1 = set nodes2"
    using assms(1) by (rule mset_eq_setD)
  have rt: "required_tools_loop nodes1 {} = required_tools_loop nodes2 {}"
    by (simp add: required_tools_loop_eq s)
  have f1: "finite (required_tools_loop nodes2 {})" by (rule finite_required_tools)
  have f2: "finite (node_type ` set nodes2)" by simp
  have so: "sort (it1 S) = sort (it2 S)" if "finite S" for S
    using that assms(2,3) by (simp add: sort_iterates)
  have te: "tool_entry it1 (required_tools_loop nodes2 {})
              = tool_entry it2 (required_tools_loop nodes2 {})"
    using f1 assms(2,3) by (auto simp: tool_entry_def affected_names_eq)
  have ne: "node_type_entry it1 (node_type ` set nodes2)
              = node_type_entry it2 (node_type ` set nodes2)"
    using f2 assms(2,3) by (auto simp: node_type_entry_def affected_names_eq)
  have m: "missing_entries it1 a nodes1 = missing_entries it2 a nodes2" for a
    unfolding missing_entries_eq rt s using so[OF f1] so[OF f2] te ne by simp
  show ?thesis
    using m
    by (simp add: validate_agent_credentials_def Let_def split: option.split prod.split)
qed

text \<open>
  C5 at two nodes in both orders, the sets visited in ascending order in one run and in
  descending order in the other.
\<close>

theorem validate_order_independent_witness:
  "mset [search_node, fetch_node] = mset [fetch_node, search_node]
   \<and> iterates sorted_list_of_set \<and> iterates (\<lambda>S. rev (sorted_list_of_set S))
   \<and> missing_entries sorted_list_of_set foo_adapter [search_node, fetch_node]
       = missing_entries (\<lambda>S. rev (sorted_list_of_set S)) foo_adapter [fetch_node, search_node]
   \<and> validate_agent_credentials sorted_list_of_set None (Some (\<lambda>env. foo_adapter))
         [search_node, fetch_node] empty_proc
       = validate_agent_credentials (\<lambda>S. rev (sorted_list_of_set S)) None
           (Some (\<lambda>env. foo_adapter)) [fetch_node, search_node] empty_proc"
proof -
  have h1: "mset [search_node, fetch_node] = mset [fetch_node, search_node]"
    by (simp add: add.commute)
  have h2: "iterates sorted_list_of_set" by (rule iterates_sorted_list_of_set)
  have h3: "iterates (\<lambda>S. rev (sorted_list_of_set S))" by (rule iterates_rev[OF h2])
  from validate_order_independent[OF h1 h2 h3] h1 h2 h3 show ?thesis by blast
qed





section \<open>Lemmas on \<open>credential_setup.py\<close>\<close>

subsection \<open>\<open>strip\<close>\<close>



lemma strip_all_space:
  assumes "\<forall>c\<in>set w. py_isspace c"
  shows "strip w = []"
  using assms by (auto simp: strip_def dest: set_dropWhileD)


subsection \<open>Projections of a trace\<close>

lemma store_calls_append [simp]: "store_calls (xs @ ys) = store_calls xs @ store_calls ys"
  by (simp add: store_calls_def)

lemma notifications_append [simp]: "notifications (xs @ ys) = notifications xs @ notifications ys"
  by (simp add: notifications_def)

lemma dismissals_append [simp]: "dismissals (xs @ ys) = dismissals xs @ dismissals ys"
  by (simp add: dismissals_def)

lemma store_calls_simps [simp]:
  "store_calls [] = []"
  "store_calls (EnsureCredentialKey # evs) = store_calls evs"
  "store_calls (QueryOne i # evs) = store_calls evs"
  "store_calls (StoreCredential c v r # evs) = (c, v, r) # store_calls evs"
  "store_calls (Notify m sev t # evs) = store_calls evs"
  "store_calls (Dismiss b # evs) = store_calls evs"
  by (simp_all add: store_calls_def)

lemma notifications_simps [simp]:
  "notifications [] = []"
  "notifications (EnsureCredentialKey # evs) = notifications evs"
  "notifications (QueryOne i # evs) = notifications evs"
  "notifications (StoreCredential c v r # evs) = notifications evs"
  "notifications (Notify m sev t # evs) = (m, sev, t) # notifications evs"
  "notifications (Dismiss b # evs) = notifications evs"
  by (simp_all add: notifications_def)

lemma dismissals_simps [simp]:
  "dismissals [] = []"
  "dismissals (EnsureCredentialKey # evs) = dismissals evs"
  "dismissals (QueryOne i # evs) = dismissals evs"
  "dismissals (StoreCredential c v r # evs) = dismissals evs"
  "dismissals (Notify m sev t # evs) = dismissals evs"
  "dismissals (Dismiss b # evs) = b # dismissals evs"
  by (simp_all add: dismissals_def)

lemma queries_only [simp]:
  "store_calls (map QueryOne js) = []"
  "notifications (map QueryOne js) = []"
  "dismissals (map QueryOne js) = []"
  by (induction js) simp_all

lemma events_since_append:
  "self_events scr' = self_events scr @ new \<Longrightarrow> events_since scr scr' = new"
  by (simp add: events_since_def)

lemma filter_error_notices:
  "filter (\<lambda>(m, sev, t). sev = Severity_error) [error_notice cr e. (cr, v, Some e) \<leftarrow> calls]
     = [error_notice cr e. (cr, v, Some e) \<leftarrow> calls]"
  by (induction calls) (auto simp: error_notice_def split: option.split)



subsection \<open>The loop\<close>

text \<open>One round of the loop, as four cases.\<close>

lemma save_loop_Cons:
  "save_loop ops i (cred # rest) c scr =
     (if \<not> i < length (self_inputs scr)
      then (Some (NoMatches i), c, log_event (QueryOne i) scr)
      else if strip (self_inputs scr ! i) = []
      then save_loop ops (Suc i) rest c (log_event (QueryOne i) scr)
      else case store_credential ops cred (strip (self_inputs scr ! i)) (self_session scr) of
             (None, s') \<Rightarrow>
               save_loop ops (Suc i) rest (Suc c)
                 (scr\<lparr>self_session := s',
                      self_events := self_events scr
                        @ [QueryOne i, StoreCredential cred (strip (self_inputs scr ! i)) None]\<rparr>)
           | (Some e, s') \<Rightarrow>
               save_loop ops (Suc i) rest c
                 (scr\<lparr>self_session := s',
                      self_events := self_events scr
                        @ [QueryOne i, StoreCredential cred (strip (self_inputs scr ! i)) (Some e),
                           Notify (ustr ''Error storing '' @ cred_env_var cred @ ustr '': '' @ e)
                             Severity_error None]\<rparr>))"
  by (simp add: log_event_def Let_def split: prod.split option.split)


text \<open>
  What a run of the loop adds to the trace: a call of \<open>_store_credential\<close> with the
  stripped value for every entry whose stripped value is not empty, in order; one error
  notification for every call that raised; no dismissal. The counter grows by the number
  of calls that returned.
\<close>

lemma save_loop_trace:
  "save_loop ops i creds c scr = (x, c', scr') \<Longrightarrow>
     \<exists>new. self_events scr' = self_events scr @ new
        \<and> self_inputs scr' = self_inputs scr \<and> self_missing scr' = self_missing scr
        \<and> map (\<lambda>(cr, v, r). (cr, v)) (store_calls new)
            = [(cr, strip w). (cr, w) \<leftarrow> zip creds (drop i (self_inputs scr)), strip w \<noteq> []]
        \<and> c' = c + length (filter (\<lambda>(cr, v, r). r = None) (store_calls new))
        \<and> notifications new = [error_notice cr e. (cr, v, Some e) \<leftarrow> store_calls new]
        \<and> dismissals new = [] \<and> EnsureCredentialKey \<notin> set new
        \<and> (x = None \<longleftrightarrow> creds = [] \<or> i + length creds \<le> length (self_inputs scr))"
proof (induction creds arbitrary: i c scr)
  case Nil
  then show ?case by simp
next
  case (Cons cred rest)
  note prem = Cons.prems[unfolded save_loop_Cons]
  show ?case
  proof (cases "i < length (self_inputs scr)")
    case False
    with prem show ?thesis
      by (auto simp: log_event_def)
  next
    case inr: True
    then have d: "drop i (self_inputs scr) = self_inputs scr ! i # drop (Suc i) (self_inputs scr)"
      by (simp add: Cons_nth_drop_Suc)
    show ?thesis
    proof (cases "strip (self_inputs scr ! i) = []")
      case True
      with inr Cons.prems have
        "save_loop ops (Suc i) rest c (log_event (QueryOne i) scr) = (x, c', scr')"
        by (simp add: save_loop_Cons)
      from Cons.IH[OF this] obtain new where
        "self_events scr' = self_events scr @ [QueryOne i] @ new"
        "self_inputs scr' = self_inputs scr" "self_missing scr' = self_missing scr"
        "map (\<lambda>(cr, v, r). (cr, v)) (store_calls new)
            = [(cr, strip w). (cr, w) \<leftarrow> zip rest (drop (Suc i) (self_inputs scr)), strip w \<noteq> []]"
        "c' = c + length (filter (\<lambda>(cr, v, r). r = None) (store_calls new))"
        "notifications new = [error_notice cr e. (cr, v, Some e) \<leftarrow> store_calls new]"
        "dismissals new = []" "EnsureCredentialKey \<notin> set new"
        "x = None \<longleftrightarrow> rest = [] \<or> Suc i + length rest \<le> length (self_inputs scr)"
        by (auto simp: log_event_def)
      with True inr d show ?thesis
        by (intro exI[of _ "[QueryOne i] @ new"]) auto
    next
      case nonblank: False
      obtain r s' where st:
        "store_credential ops cred (strip (self_inputs scr ! i)) (self_session scr) = (r, s')"
        by (cases "store_credential ops cred (strip (self_inputs scr ! i)) (self_session scr)")
      show ?thesis
      proof (cases r)
        case None
        let ?ev = "[QueryOne i, StoreCredential cred (strip (self_inputs scr ! i)) None]"
        from None st nonblank inr prem have
          "save_loop ops (Suc i) rest (Suc c)
             (scr\<lparr>self_session := s', self_events := self_events scr @ ?ev\<rparr>) = (x, c', scr')"
          by simp
        from Cons.IH[OF this] obtain new where
          "self_events scr' = self_events scr @ ?ev @ new"
          "self_inputs scr' = self_inputs scr" "self_missing scr' = self_missing scr"
          "map (\<lambda>(cr, v, r). (cr, v)) (store_calls new)
              = [(cr, strip w). (cr, w) \<leftarrow> zip rest (drop (Suc i) (self_inputs scr)), strip w \<noteq> []]"
          "c' = Suc c + length (filter (\<lambda>(cr, v, r). r = None) (store_calls new))"
          "notifications new = [error_notice cr e. (cr, v, Some e) \<leftarrow> store_calls new]"
          "dismissals new = []" "EnsureCredentialKey \<notin> set new"
          "x = None \<longleftrightarrow> rest = [] \<or> Suc i + length rest \<le> length (self_inputs scr)"
          by auto
        with nonblank inr d show ?thesis
          by (intro exI[of _ "?ev @ new"]) auto
      next
        case (Some e)
        let ?ev = "[QueryOne i, StoreCredential cred (strip (self_inputs scr ! i)) (Some e),
                    Notify (ustr ''Error storing '' @ cred_env_var cred @ ustr '': '' @ e)
                      Severity_error None]"
        from Some st nonblank inr prem have
          "save_loop ops (Suc i) rest c
             (scr\<lparr>self_session := s', self_events := self_events scr @ ?ev\<rparr>) = (x, c', scr')"
          by simp
        from Cons.IH[OF this] obtain new where
          "self_events scr' = self_events scr @ ?ev @ new"
          "self_inputs scr' = self_inputs scr" "self_missing scr' = self_missing scr"
          "map (\<lambda>(cr, v, r). (cr, v)) (store_calls new)
              = [(cr, strip w). (cr, w) \<leftarrow> zip rest (drop (Suc i) (self_inputs scr)), strip w \<noteq> []]"
          "c' = c + length (filter (\<lambda>(cr, v, r). r = None) (store_calls new))"
          "notifications new = [error_notice cr e. (cr, v, Some e) \<leftarrow> store_calls new]"
          "dismissals new = []" "EnsureCredentialKey \<notin> set new"
          "x = None \<longleftrightarrow> rest = [] \<or> Suc i + length rest \<le> length (self_inputs scr)"
          by auto
        with nonblank inr d show ?thesis
          by (intro exI[of _ "?ev @ new"]) (auto simp: error_notice_def)
      qed
    qed
  qed
qed

lemma save_loop_blank:
  "i + length creds \<le> length (self_inputs scr) \<Longrightarrow>
   (\<forall>j. i \<le> j \<and> j < i + length creds \<longrightarrow> strip (self_inputs scr ! j) = []) \<Longrightarrow>
   save_loop ops i creds c scr
     = (None, c, scr\<lparr>self_events := self_events scr @ map QueryOne [i..<i + length creds]\<rparr>)"
proof (induction creds arbitrary: i scr)
  case Nil
  then show ?case by simp
next
  case (Cons cred rest)
  from Cons.prems have a: "i < length (self_inputs scr)" "strip (self_inputs scr ! i) = []"
    by auto
  have "save_loop ops (Suc i) rest c (log_event (QueryOne i) scr)
      = (None, c, (log_event (QueryOne i) scr)
           \<lparr>self_events := self_events (log_event (QueryOne i) scr)
              @ map QueryOne [Suc i..<Suc i + length rest]\<rparr>)"
    using Cons.prems by (intro Cons.IH) (auto simp: log_event_def)
  moreover have "[i..<i + length (cred # rest)] = i # [Suc i..<Suc i + length rest]"
    using upt_conv_Cons[of i "i + length (cred # rest)"] by simp
  ultimately show ?case
    unfolding save_loop_Cons using a by (simp add: log_event_def)
qed

lemma save_loop_append:
  "save_loop ops i (xs @ ys) c scr =
     (case save_loop ops i xs c scr of
        (None, c1, scr1) \<Rightarrow> save_loop ops (i + length xs) ys c1 scr1
      | (Some e, c1, scr1) \<Rightarrow> (Some e, c1, scr1))"
proof (induction xs arbitrary: i c scr)
  case Nil
  then show ?case by simp
next
  case (Cons x xs)
  show ?case
    unfolding append_Cons save_loop_Cons
    by (simp add: Cons.IH split: prod.split option.split)
qed


lemma save_loop_single:
  assumes len: "length creds \<le> length (self_inputs scr)"
      and k: "k < length creds"
      and nb: "strip (self_inputs scr ! k) \<noteq> []"
      and bl: "\<forall>j<length (self_inputs scr). j \<noteq> k \<longrightarrow> strip (self_inputs scr ! j) = []"
      and st: "store_credential ops (creds ! k) (strip (self_inputs scr ! k)) (self_session scr)
                 = (None, s2)"
  shows "save_loop ops 0 creds c scr
           = (None, Suc c,
              scr\<lparr>self_session := s2,
                  self_events := self_events scr @ map QueryOne [0..<Suc k]
                    @ StoreCredential (creds ! k) (strip (self_inputs scr ! k)) None
                    # map QueryOne [Suc k..<length creds]\<rparr>)"
proof -
  let ?a = "scr\<lparr>self_events := self_events scr @ map QueryOne [0..<k]\<rparr>"
  let ?b = "scr\<lparr>self_session := s2,
                 self_events := self_events scr @ map QueryOne [0..<k]
                   @ [QueryOne k, StoreCredential (creds ! k) (strip (self_inputs scr ! k)) None]\<rparr>"
  have split: "creds = take k creds @ (creds ! k # drop (Suc k) creds)"
    using k by (simp add: id_take_nth_drop[symmetric])
  have s1: "save_loop ops 0 (take k creds) c scr = (None, c, ?a)"
    using save_loop_blank[of 0 "take k creds" scr ops c] len k bl by simp
  have e: "Suc k + length (drop (Suc k) creds) = length creds"
    using k by simp
  have s3: "save_loop ops (Suc k) (drop (Suc k) creds) (Suc c) ?b
      = (None, Suc c, ?b\<lparr>self_events := self_events ?b
           @ map QueryOne [Suc k..<Suc k + length (drop (Suc k) creds)]\<rparr>)"
    using len k bl by (intro save_loop_blank) auto
  note s3 = s3[unfolded e]
  have s2: "save_loop ops k (creds ! k # drop (Suc k) creds) c ?a
      = save_loop ops (Suc k) (drop (Suc k) creds) (Suc c) ?b"
    unfolding save_loop_Cons using len k nb st by simp
  have "save_loop ops 0 creds c scr
      = save_loop ops (0 + length (take k creds)) (creds ! k # drop (Suc k) creds) c ?a"
    using save_loop_append[of ops 0 "take k creds" "creds ! k # drop (Suc k) creds" c scr] s1 split
    by simp
  also have "\<dots> = save_loop ops k (creds ! k # drop (Suc k) creds) c ?a"
    using k by simp
  also note s2
  also note s3
  finally show ?thesis by simp
qed


subsection \<open>The whole of \<open>_save_credentials\<close>\<close>

lemma save_credentials_trace:
  assumes "save_credentials ops scr = (x, scr')"
      and "ensure_credential_key ops (self_session scr) = (None, s1)"
  shows "\<exists>new. self_events scr' = self_events scr @ EnsureCredentialKey # new
        \<and> EnsureCredentialKey \<notin> set new
        \<and> map (\<lambda>(cr, v, r). (cr, v)) (store_calls new)
            = [(cr, strip w). (cr, w) \<leftarrow> zip (self_missing scr) (self_inputs scr), strip w \<noteq> []]
        \<and> notifications new
            = [error_notice cr e. (cr, v, Some e) \<leftarrow> store_calls new]
              @ (if x = None \<and> \<not> (\<exists>(cr, v, r)\<in>set (store_calls new). r = None)
                 then [(ustr ''No credentials entered'', Severity_warning, Some 3)] else [])
        \<and> dismissals new
            = (if x = None \<and> (\<exists>(cr, v, r)\<in>set (store_calls new). r = None) then [Some True]
               else [])
        \<and> (x = None \<longleftrightarrow> length (self_missing scr) \<le> length (self_inputs scr))"
proof -
  let ?scr0 = "(log_event EnsureCredentialKey scr)\<lparr>self_session := s1\<rparr>"
  obtain xl cl scrl where l: "save_loop ops 0 (self_missing scr) 0 ?scr0 = (xl, cl, scrl)"
    by (cases "save_loop ops 0 (self_missing scr) 0 ?scr0")
  from save_loop_trace[OF l] obtain new where n:
    "self_events scrl = self_events scr @ EnsureCredentialKey # new"
    "map (\<lambda>(cr, v, r). (cr, v)) (store_calls new)
       = [(cr, strip w). (cr, w) \<leftarrow> zip (self_missing scr) (self_inputs scr), strip w \<noteq> []]"
    "cl = length (filter (\<lambda>(cr, v, r). r = None) (store_calls new))"
    "notifications new = [error_notice cr e. (cr, v, Some e) \<leftarrow> store_calls new]"
    "dismissals new = []" "EnsureCredentialKey \<notin> set new"
    "xl = None \<longleftrightarrow> self_missing scr = [] \<or> length (self_missing scr) \<le> length (self_inputs scr)"
    by (auto simp: log_event_def)
  have pos: "0 < cl \<longleftrightarrow> (\<exists>(cr, v, r)\<in>set (store_calls new). r = None)"
    unfolding n(3) by (auto simp: filter_empty_conv)
  have xe: "xl = None \<longleftrightarrow> length (self_missing scr) \<le> length (self_inputs scr)"
    using n(7) by auto
  show ?thesis
  proof (cases xl)
    case (Some e)
    with assms l have "x = Some e" "scr' = scrl"
      by (simp_all add: save_credentials_def Let_def log_event_def)
    with n Some xe show ?thesis
      by (intro exI[of _ new]) (simp add: filter_error_notices)
  next
    case None
    show ?thesis
    proof (cases "0 < cl")
      case True
      with None assms l have "x = None" "scr' = log_event (Dismiss (Some True)) scrl"
        by (simp_all add: save_credentials_def Let_def log_event_def)
      with n None xe True pos show ?thesis
        by (intro exI[of _ "new @ [Dismiss (Some True)]"])
           (simp add: filter_error_notices log_event_def)
    next
      case False
      with None assms l have "x = None"
        "scr' = log_event (Notify (ustr ''No credentials entered'') Severity_warning (Some 3)) scrl"
        by (simp_all add: save_credentials_def Let_def log_event_def)
      with n None xe False pos show ?thesis
        by (intro exI[of _ "new @ [Notify (ustr ''No credentials entered'') Severity_warning (Some 3)]"])
           (simp add: filter_error_notices log_event_def)
    qed
  qed
qed



subsection \<open>Runs of the example screen\<close>

lemmas demo_defs =
  save_credentials_def demo_ops_def demo_screen_def log_event_def strip_def py_isspace_def
  ustr_def nl_def Let_def

lemma demo_run_two_of_three:
  "save_credentials demo_ops (demo_screen [ustr '' a '', ustr ''x'', []])
     = (None,
        \<lparr>self_session = \<lparr>master_key = Some (ustr ''generated-key''),
                          stored = [(ustr ''A_KEY'', ustr ''a'')]\<rparr>,
         self_missing = [\<lparr>cred_env_var = ustr ''A_KEY''\<rparr>, \<lparr>cred_env_var = ustr ''BAD_KEY''\<rparr>,
                         \<lparr>cred_env_var = ustr ''B_KEY''\<rparr>],
         self_inputs = [ustr '' a '', ustr ''x'', []],
         self_events =
           [EnsureCredentialKey,
            QueryOne 0, StoreCredential \<lparr>cred_env_var = ustr ''A_KEY''\<rparr> (ustr ''a'') None,
            QueryOne 1,
            StoreCredential \<lparr>cred_env_var = ustr ''BAD_KEY''\<rparr> (ustr ''x'')
              (Some (ustr ''disk full'')),
            Notify (ustr ''Error storing BAD_KEY: disk full'') Severity_error None,
            QueryOne 2,
            Dismiss (Some True)]\<rparr>)"
  by (simp add: demo_defs)

lemma demo_run_three_of_three:
  "save_credentials demo_ops (demo_screen [ustr '' a '', ustr ''x'', ustr ''b'' @ nl])
     = (None,
        \<lparr>self_session = \<lparr>master_key = Some (ustr ''generated-key''),
                          stored = [(ustr ''A_KEY'', ustr ''a''), (ustr ''B_KEY'', ustr ''b'')]\<rparr>,
         self_missing = [\<lparr>cred_env_var = ustr ''A_KEY''\<rparr>, \<lparr>cred_env_var = ustr ''BAD_KEY''\<rparr>,
                         \<lparr>cred_env_var = ustr ''B_KEY''\<rparr>],
         self_inputs = [ustr '' a '', ustr ''x'', ustr ''b'' @ nl],
         self_events =
           [EnsureCredentialKey,
            QueryOne 0, StoreCredential \<lparr>cred_env_var = ustr ''A_KEY''\<rparr> (ustr ''a'') None,
            QueryOne 1,
            StoreCredential \<lparr>cred_env_var = ustr ''BAD_KEY''\<rparr> (ustr ''x'')
              (Some (ustr ''disk full'')),
            Notify (ustr ''Error storing BAD_KEY: disk full'') Severity_error None,
            QueryOne 2, StoreCredential \<lparr>cred_env_var = ustr ''B_KEY''\<rparr> (ustr ''b'') None,
            Dismiss (Some True)]\<rparr>)"
  by (simp add: demo_defs)

lemma demo_run_blank:
  "save_credentials demo_ops (demo_screen [ustr ''  '', [], nl])
     = (None,
        \<lparr>self_session = \<lparr>master_key = Some (ustr ''generated-key''), stored = []\<rparr>,
         self_missing = [\<lparr>cred_env_var = ustr ''A_KEY''\<rparr>, \<lparr>cred_env_var = ustr ''BAD_KEY''\<rparr>,
                         \<lparr>cred_env_var = ustr ''B_KEY''\<rparr>],
         self_inputs = [ustr ''  '', [], nl],
         self_events =
           [EnsureCredentialKey, QueryOne 0, QueryOne 1, QueryOne 2,
            Notify (ustr ''No credentials entered'') Severity_warning (Some 3)]\<rparr>)"
  by (simp add: demo_defs)

lemma demo_run_one:
  "save_credentials demo_ops (demo_screen [ustr ''  '', [], ustr '' b''])
     = (None,
        \<lparr>self_session = \<lparr>master_key = Some (ustr ''generated-key''),
                          stored = [(ustr ''B_KEY'', ustr ''b'')]\<rparr>,
         self_missing = [\<lparr>cred_env_var = ustr ''A_KEY''\<rparr>, \<lparr>cred_env_var = ustr ''BAD_KEY''\<rparr>,
                         \<lparr>cred_env_var = ustr ''B_KEY''\<rparr>],
         self_inputs = [ustr ''  '', [], ustr '' b''],
         self_events =
           [EnsureCredentialKey, QueryOne 0, QueryOne 1, QueryOne 2,
            StoreCredential \<lparr>cred_env_var = ustr ''B_KEY''\<rparr> (ustr ''b'') None,
            Dismiss (Some True)]\<rparr>)"
  by (simp add: demo_defs)


section \<open>Claims on \<open>credential_setup.py\<close>\<close>

text \<open>
  C7, as the specification states it, fails in its last part: the session reports no summary
  of counts. In two runs the store fails for \<open>BAD_KEY\<close>; one run stores one credential and
  the other stores two. What the screen reports is the same in both: the one error
  notification for \<open>BAD_KEY\<close> and the dismissal with \<open>True\<close>.
\<close>

theorem no_summary_counterexample:
  "notifications (self_events (snd (save_credentials demo_ops
       (demo_screen [ustr '' a '', ustr ''x'', []]))))
     = [(ustr ''Error storing BAD_KEY: disk full'', Severity_error, None)]
   \<and> notifications (self_events (snd (save_credentials demo_ops
       (demo_screen [ustr '' a '', ustr ''x'', ustr ''b'' @ nl]))))
     = [(ustr ''Error storing BAD_KEY: disk full'', Severity_error, None)]
   \<and> dismissals (self_events (snd (save_credentials demo_ops
       (demo_screen [ustr '' a '', ustr ''x'', []])))) = [Some True]
   \<and> dismissals (self_events (snd (save_credentials demo_ops
       (demo_screen [ustr '' a '', ustr ''x'', ustr ''b'' @ nl])))) = [Some True]
   \<and> length (filter (\<lambda>(cr, v, r). r = None) (store_calls (self_events (snd
       (save_credentials demo_ops (demo_screen [ustr '' a '', ustr ''x'', []])))))) = 1
   \<and> length (filter (\<lambda>(cr, v, r). r = None) (store_calls (self_events (snd
       (save_credentials demo_ops (demo_screen [ustr '' a '', ustr ''x'', ustr ''b'' @ nl])))))) = 2"
  unfolding demo_run_two_of_three demo_run_three_of_three by simp


text \<open>
  C7, amended. When the key is ensured and every entry has its input, no exception leaves
  the save action, whatever the stores do. Every entry whose stripped value is not empty
  gets its call of \<open>_store_credential\<close>, also after a call that raised; every call that
  raised is reported by its own error notification \<open>"Error storing <env_var>: <exception>"\<close>.
  These are all the notifications, but for the warning \<open>"No credentials entered"\<close> that
  follows them when no call returned; and the one dismissal is with \<open>True\<close>, made exactly
  when some call returned. So nothing that the save action reports gives a count.
\<close>

theorem store_failure_not_fatal:
  assumes "fst (ensure_credential_key ops (self_session scr)) = None"
      and "length (self_missing scr) \<le> length (self_inputs scr)"
  shows "case save_credentials ops scr of (x, scr') \<Rightarrow>
      x = None
      \<and> map (\<lambda>(cr, v, r). (cr, v)) (store_calls (events_since scr scr'))
          = [(cr, strip w). (cr, w) \<leftarrow> zip (self_missing scr) (self_inputs scr), strip w \<noteq> []]
      \<and> notifications (events_since scr scr')
          = [error_notice cr e. (cr, v, Some e) \<leftarrow> store_calls (events_since scr scr')]
            @ (if \<exists>(cr, v, r)\<in>set (store_calls (events_since scr scr')). r = None then []
               else [(ustr ''No credentials entered'', Severity_warning, Some 3)])
      \<and> dismissals (events_since scr scr')
          = (if \<exists>(cr, v, r)\<in>set (store_calls (events_since scr scr')). r = None
             then [Some True] else [])"
proof -
  obtain x scr' where r: "save_credentials ops scr = (x, scr')"
    by (cases "save_credentials ops scr")
  obtain s1 where e: "ensure_credential_key ops (self_session scr) = (None, s1)"
    using assms(1) by (cases "ensure_credential_key ops (self_session scr)") simp
  from save_credentials_trace[OF r e] obtain new where n:
    "self_events scr' = self_events scr @ EnsureCredentialKey # new"
    "map (\<lambda>(cr, v, r). (cr, v)) (store_calls new)
       = [(cr, strip w). (cr, w) \<leftarrow> zip (self_missing scr) (self_inputs scr), strip w \<noteq> []]"
    "notifications new
       = [error_notice cr e. (cr, v, Some e) \<leftarrow> store_calls new]
         @ (if x = None \<and> \<not> (\<exists>(cr, v, r)\<in>set (store_calls new). r = None)
            then [(ustr ''No credentials entered'', Severity_warning, Some 3)] else [])"
    "dismissals new
       = (if x = None \<and> (\<exists>(cr, v, r)\<in>set (store_calls new). r = None) then [Some True] else [])"
    "x = None \<longleftrightarrow> length (self_missing scr) \<le> length (self_inputs scr)"
    by blast
  have ev: "events_since scr scr' = EnsureCredentialKey # new"
    using n(1) by (rule events_since_append)
  show ?thesis
    unfolding r prod.case ev using n assms(2) by simp
qed


text \<open>
  The amended C7 on the example screen: the store fails for the second entry, the third
  entry is stored all the same, and the screen is dismissed with \<open>True\<close>.
\<close>

theorem store_failure_not_fatal_witness:
  "fst (ensure_credential_key demo_ops
          (self_session (demo_screen [ustr '' a '', ustr ''x'', ustr ''b'' @ nl]))) = None
   \<and> length (self_missing (demo_screen [ustr '' a '', ustr ''x'', ustr ''b'' @ nl]))
       \<le> length (self_inputs (demo_screen [ustr '' a '', ustr ''x'', ustr ''b'' @ nl]))
   \<and> fst (save_credentials demo_ops (demo_screen [ustr '' a '', ustr ''x'', ustr ''b'' @ nl]))
       = None
   \<and> store_calls (self_events (snd (save_credentials demo_ops
         (demo_screen [ustr '' a '', ustr ''x'', ustr ''b'' @ nl]))))
       = [(\<lparr>cred_env_var = ustr ''A_KEY''\<rparr>, ustr ''a'', None),
          (\<lparr>cred_env_var = ustr ''BAD_KEY''\<rparr>, ustr ''x'', Some (ustr ''disk full'')),
          (\<lparr>cred_env_var = ustr ''B_KEY''\<rparr>, ustr ''b'', None)]
   \<and> notifications (self_events (snd (save_credentials demo_ops
         (demo_screen [ustr '' a '', ustr ''x'', ustr ''b'' @ nl]))))
       = [error_notice \<lparr>cred_env_var = ustr ''BAD_KEY''\<rparr> (ustr ''disk full'')]
   \<and> dismissals (self_events (snd (save_credentials demo_ops
         (demo_screen [ustr '' a '', ustr ''x'', ustr ''b'' @ nl])))) = [Some True]"
proof -
  let ?scr = "demo_screen [ustr '' a '', ustr ''x'', ustr ''b'' @ nl]"
  have h1: "fst (ensure_credential_key demo_ops (self_session ?scr)) = None"
    by (simp add: demo_ops_def)
  have h2: "length (self_missing ?scr) \<le> length (self_inputs ?scr)"
    by (simp add: demo_screen_def)
  have ev: "events_since ?scr (snd (save_credentials demo_ops ?scr))
              = self_events (snd (save_credentials demo_ops ?scr))"
    by (simp add: events_since_def demo_screen_def)
  have n: "notifications (self_events (snd (save_credentials demo_ops ?scr)))
       = [error_notice \<lparr>cred_env_var = ustr ''BAD_KEY''\<rparr> (ustr ''disk full'')]"
    unfolding demo_run_three_of_three by (simp add: error_notice_def ustr_def)
  have s: "store_calls (self_events (snd (save_credentials demo_ops ?scr)))
       = [(\<lparr>cred_env_var = ustr ''A_KEY''\<rparr>, ustr ''a'', None),
          (\<lparr>cred_env_var = ustr ''BAD_KEY''\<rparr>, ustr ''x'', Some (ustr ''disk full'')),
          (\<lparr>cred_env_var = ustr ''B_KEY''\<rparr>, ustr ''b'', None)]"
    unfolding demo_run_three_of_three by simp
  from store_failure_not_fatal[OF h1 h2] have
    "fst (save_credentials demo_ops ?scr) = None
     \<and> dismissals (self_events (snd (save_credentials demo_ops ?scr))) = [Some True]"
    by (simp add: case_prod_beta ev s)
  with h1 h2 n s show ?thesis by blast
qed


text \<open>
  C8, as the specification states it, fails in its first part: when every input is blank the
  screen is not dismissed, so the session does not become \<open>Cancelled\<close>; it warns
  \<open>"No credentials entered"\<close> and stays open, where the Escape action on the same screen
  does cancel. In the second part the session is dismissed with \<open>True\<close> after one store, and
  nothing else is reported.
\<close>

theorem all_blank_stays_open_counterexample:
  "state_of (self_events (snd (save_credentials demo_ops (demo_screen [ustr ''  '', [], nl]))))
     = Collecting
   \<and> dismissals (self_events (snd (save_credentials demo_ops (demo_screen [ustr ''  '', [], nl]))))
     = []
   \<and> notifications (self_events (snd (save_credentials demo_ops
        (demo_screen [ustr ''  '', [], nl]))))
     = [(ustr ''No credentials entered'', Severity_warning, Some 3)]
   \<and> state_of (self_events (action_dismiss_setup (demo_screen [ustr ''  '', [], nl]))) = Cancelled
   \<and> self_events (snd (save_credentials demo_ops (demo_screen [ustr ''  '', [], ustr '' b''])))
     = [EnsureCredentialKey, QueryOne 0, QueryOne 1, QueryOne 2,
        StoreCredential \<lparr>cred_env_var = ustr ''B_KEY''\<rparr> (ustr ''b'') None,
        Dismiss (Some True)]"
  unfolding demo_run_blank demo_run_one
  by (simp add: state_of_def action_dismiss_setup_def log_event_def demo_screen_def)


text \<open>
  C8, amended. With the key ensured and an input for every entry: when every input is blank
  after stripping, the save action makes no call of \<open>_store_credential\<close>, notifies the
  warning \<open>"No credentials entered"\<close> and does not dismiss the screen, which stays open; when
  exactly one input, the one of entry \<open>k\<close>, is not blank and its store returns, the save
  action makes that one call with the stripped value, notifies nothing, and dismisses the
  screen with \<open>True\<close>.
\<close>

theorem blank_submission_and_single_entry:
  assumes "ensure_credential_key ops (self_session scr) = (None, s1)"
      and "length (self_missing scr) \<le> length (self_inputs scr)"
  shows
    "((\<forall>w\<in>set (self_inputs scr). strip w = []) \<longrightarrow>
        save_credentials ops scr
          = (None,
             scr\<lparr>self_session := s1,
                 self_events := self_events scr
                   @ EnsureCredentialKey # map QueryOne [0..<length (self_missing scr)]
                   @ [Notify (ustr ''No credentials entered'') Severity_warning (Some 3)]\<rparr>))
     \<and> (k < length (self_missing scr) \<and> strip (self_inputs scr ! k) \<noteq> []
          \<and> (\<forall>j<length (self_inputs scr). j \<noteq> k \<longrightarrow> strip (self_inputs scr ! j) = [])
          \<and> store_credential ops (self_missing scr ! k) (strip (self_inputs scr ! k)) s1
              = (None, s2) \<longrightarrow>
        save_credentials ops scr
          = (None,
             scr\<lparr>self_session := s2,
                 self_events := self_events scr
                   @ EnsureCredentialKey # map QueryOne [0..<Suc k]
                   @ StoreCredential (self_missing scr ! k) (strip (self_inputs scr ! k)) None
                   # map QueryOne [Suc k..<length (self_missing scr)]
                   @ [Dismiss (Some True)]\<rparr>))"
proof (intro conjI impI)
  let ?scr0 = "(log_event EnsureCredentialKey scr)\<lparr>self_session := s1\<rparr>"
  assume "\<forall>w\<in>set (self_inputs scr). strip w = []"
  then have "save_loop ops 0 (self_missing scr) 0 ?scr0
      = (None, 0, ?scr0\<lparr>self_events := self_events ?scr0
           @ map QueryOne [0..<0 + length (self_missing scr)]\<rparr>)"
    using assms(2) by (intro save_loop_blank) (auto simp: log_event_def)
  with assms(1) show "save_credentials ops scr
          = (None,
             scr\<lparr>self_session := s1,
                 self_events := self_events scr
                   @ EnsureCredentialKey # map QueryOne [0..<length (self_missing scr)]
                   @ [Notify (ustr ''No credentials entered'') Severity_warning (Some 3)]\<rparr>)"
    by (simp add: save_credentials_def Let_def log_event_def)
next
  let ?scr0 = "(log_event EnsureCredentialKey scr)\<lparr>self_session := s1\<rparr>"
  assume a: "k < length (self_missing scr) \<and> strip (self_inputs scr ! k) \<noteq> []
          \<and> (\<forall>j<length (self_inputs scr). j \<noteq> k \<longrightarrow> strip (self_inputs scr ! j) = [])
          \<and> store_credential ops (self_missing scr ! k) (strip (self_inputs scr ! k)) s1
              = (None, s2)"
  have "save_loop ops 0 (self_missing scr) 0 ?scr0
      = (None, Suc 0,
         ?scr0\<lparr>self_session := s2,
               self_events := self_events ?scr0 @ map QueryOne [0..<Suc k]
                 @ StoreCredential (self_missing scr ! k) (strip (self_inputs ?scr0 ! k)) None
                 # map QueryOne [Suc k..<length (self_missing scr)]\<rparr>)"
    using a assms(2) by (intro save_loop_single) (auto simp: log_event_def)
  with assms(1) show "save_credentials ops scr
          = (None,
             scr\<lparr>self_session := s2,
                 self_events := self_events scr
                   @ EnsureCredentialKey # map QueryOne [0..<Suc k]
                   @ StoreCredential (self_missing scr ! k) (strip (self_inputs scr ! k)) None
                   # map QueryOne [Suc k..<length (self_missing scr)]
                   @ [Dismiss (Some True)]\<rparr>)"
    by (simp add: save_credentials_def Let_def log_event_def)
qed


text \<open>
  The amended C8 on the example screen, once with three blank inputs and once with the
  third input alone filled in.
\<close>

theorem blank_submission_and_single_entry_witness:
  "ensure_credential_key demo_ops (self_session (demo_screen [ustr ''  '', [], nl]))
     = (None, \<lparr>master_key = Some (ustr ''generated-key''), stored = []\<rparr>)
   \<and> length (self_missing (demo_screen [ustr ''  '', [], nl]))
       \<le> length (self_inputs (demo_screen [ustr ''  '', [], nl]))
   \<and> strip (ustr ''  '') = [] \<and> strip [] = [] \<and> strip nl = []
   \<and> store_calls (self_events (snd (save_credentials demo_ops
         (demo_screen [ustr ''  '', [], nl])))) = []
   \<and> state_of (self_events (snd (save_credentials demo_ops
         (demo_screen [ustr ''  '', [], nl])))) = Collecting
   \<and> 2 < length (self_missing (demo_screen [ustr ''  '', [], ustr '' b'']))
   \<and> strip (self_inputs (demo_screen [ustr ''  '', [], ustr '' b'']) ! 2) \<noteq> []
   \<and> strip (self_inputs (demo_screen [ustr ''  '', [], ustr '' b'']) ! 0) = []
   \<and> strip (self_inputs (demo_screen [ustr ''  '', [], ustr '' b'']) ! 1) = []
   \<and> store_calls (self_events (snd (save_credentials demo_ops
         (demo_screen [ustr ''  '', [], ustr '' b''])))) 
       = [(\<lparr>cred_env_var = ustr ''B_KEY''\<rparr>, ustr ''b'', None)]
   \<and> notifications (self_events (snd (save_credentials demo_ops
         (demo_screen [ustr ''  '', [], ustr '' b''])))) = []
   \<and> state_of (self_events (snd (save_credentials demo_ops
         (demo_screen [ustr ''  '', [], ustr '' b''])))) = Saved"
proof -
  let ?blank = "demo_screen [ustr ''  '', [], nl]"
  let ?one = "demo_screen [ustr ''  '', [], ustr '' b'']"
  let ?s1 = "\<lparr>master_key = Some (ustr ''generated-key''), stored = []\<rparr>"
  let ?s2 = "\<lparr>master_key = Some (ustr ''generated-key''), stored = [(ustr ''B_KEY'', ustr ''b'')]\<rparr>"
  have k1: "ensure_credential_key demo_ops (self_session ?blank) = (None, ?s1)"
    by (simp add: demo_ops_def demo_screen_def)
  have k2: "ensure_credential_key demo_ops (self_session ?one) = (None, ?s1)"
    by (simp add: demo_ops_def demo_screen_def)
  have l1: "length (self_missing ?blank) \<le> length (self_inputs ?blank)"
    by (simp add: demo_screen_def)
  have l2: "length (self_missing ?one) \<le> length (self_inputs ?one)"
    by (simp add: demo_screen_def)
  have b: "\<forall>w\<in>set (self_inputs ?blank). strip w = []"
    by (simp add: demo_screen_def strip_def py_isspace_def ustr_def nl_def)
  have o: "2 < length (self_missing ?one) \<and> strip (self_inputs ?one ! 2) \<noteq> []
      \<and> (\<forall>j<length (self_inputs ?one). j \<noteq> 2 \<longrightarrow> strip (self_inputs ?one ! j) = [])
      \<and> store_credential demo_ops (self_missing ?one ! 2) (strip (self_inputs ?one ! 2)) ?s1
          = (None, ?s2)"
    by (simp add: demo_screen_def demo_ops_def strip_def py_isspace_def ustr_def nl_def
          less_Suc_eq numeral_3_eq_3)
  from blank_submission_and_single_entry[OF k1 l1, of 0 ?s1] b have r1:
    "save_credentials demo_ops ?blank
       = (None, ?blank\<lparr>self_session := ?s1,
            self_events := self_events ?blank
              @ EnsureCredentialKey # map QueryOne [0..<length (self_missing ?blank)]
              @ [Notify (ustr ''No credentials entered'') Severity_warning (Some 3)]\<rparr>)"
    by blast
  from blank_submission_and_single_entry[OF k2 l2, of 2 ?s2] o have r2:
    "save_credentials demo_ops ?one
       = (None, ?one\<lparr>self_session := ?s2,
            self_events := self_events ?one
              @ EnsureCredentialKey # map QueryOne [0..<Suc 2]
              @ StoreCredential (self_missing ?one ! 2) (strip (self_inputs ?one ! 2)) None
              # map QueryOne [Suc 2..<length (self_missing ?one)]
              @ [Dismiss (Some True)]\<rparr>)"
    by blast
  have e1: "store_calls (self_events (snd (save_credentials demo_ops ?blank))) = []
      \<and> state_of (self_events (snd (save_credentials demo_ops ?blank))) = Collecting"
    unfolding r1 by (simp add: state_of_def demo_screen_def)
  have e2: "store_calls (self_events (snd (save_credentials demo_ops ?one)))
        = [(\<lparr>cred_env_var = ustr ''B_KEY''\<rparr>, ustr ''b'', None)]
      \<and> notifications (self_events (snd (save_credentials demo_ops ?one))) = []
      \<and> state_of (self_events (snd (save_credentials demo_ops ?one))) = Saved"
    unfolding r2
    by (simp add: state_of_def demo_screen_def strip_def py_isspace_def ustr_def)
  have b': "strip (ustr ''  '') = [] \<and> strip [] = [] \<and> strip nl = []"
    using b by (simp add: demo_screen_def)
  have o': "2 < length (self_missing ?one) \<and> strip (self_inputs ?one ! 2) \<noteq> []
      \<and> strip (self_inputs ?one ! 0) = [] \<and> strip (self_inputs ?one ! 1) = []"
    by (simp add: demo_screen_def strip_def py_isspace_def ustr_def)
  from k1 l1 b' o' e1 e2 show ?thesis by blast
qed










end
